theory Spec2Isabelle
  imports Complex_Main "HOL-Library.Multiset"
begin

section \<open>Python values and the parameter check\<close>

text \<open>
  \<^verbatim>\<open>adaptive_geohash_nearby_search\<close> is dynamically typed: its first statement inspects
  the run-time classes of four arguments with \<^verbatim>\<open>isinstance\<close>. The values it can be handed
  are modelled by a tagged union. A Python \<^verbatim>\<open>float\<close> is idealised as a real number
  (no rounding, no NaN, no infinities); Python's unbounded \<^verbatim>\<open>int\<close> is \<^typ>\<open>int\<close>.
\<close>

datatype pyval = PyInt int | PyFloat real | PyStr string | PyNone

datatype error = InvalidParamException

text \<open>\<^verbatim>\<open>isinstance(v, (int, float))\<close> and \<^verbatim>\<open>isinstance(v, int)\<close>.\<close>

fun isinstance_int_float :: "pyval \<Rightarrow> bool" where
  "isinstance_int_float (PyInt _) = True"
| "isinstance_int_float (PyFloat _) = True"
| "isinstance_int_float _ = False"

fun isinstance_int :: "pyval \<Rightarrow> bool" where
  "isinstance_int (PyInt _) = True"
| "isinstance_int _ = False"

text \<open>
  The condition of the \<^verbatim>\<open>if\<close> in front of \<^verbatim>\<open>raise InvalidParamException()\<close>, with the
  parentheses where the source has them: the outer \<^verbatim>\<open>not\<close> covers the whole disjunction.
\<close>

definition invalid_params :: "pyval \<Rightarrow> pyval \<Rightarrow> pyval \<Rightarrow> pyval \<Rightarrow> bool" where
  "invalid_params latitude longitude lower_cut upper_cut \<longleftrightarrow>
     \<not> (isinstance_int_float latitude \<or> \<not> isinstance_int_float longitude
        \<or> \<not> isinstance_int lower_cut \<or> \<not> isinstance_int upper_cut)"

text \<open>The number a numeric Python value stands for.\<close>

fun num_of :: "pyval \<Rightarrow> real" where
  "num_of (PyInt i) = of_int i"
| "num_of (PyFloat x) = x"
| "num_of _ = 0"

section \<open>Great-circle distance\<close>

definition EQUATORIAL_R :: real where
  "EQUATORIAL_R = 6367.445"

definition radians :: "real \<Rightarrow> real" where
  "radians x = x * pi / 180"

text \<open>\<^verbatim>\<open>math.atan2(y, x)\<close> on real numbers: the angle of the point \<open>(x, y)\<close> in \<open>(-pi, pi]\<close>.\<close>

definition atan2 :: "real \<Rightarrow> real \<Rightarrow> real" where
  "atan2 y x =
     (if 0 < x then arctan (y / x)
      else if x < 0 then (if 0 \<le> y then arctan (y / x) + pi else arctan (y / x) - pi)
      else if 0 < y then pi / 2
      else if y < 0 then - (pi / 2)
      else 0)"

definition distance :: "real \<Rightarrow> real \<Rightarrow> real \<Rightarrow> real \<Rightarrow> real" where
  "distance lat1 long1 lat2 long2 =
     (if lat1 = lat2 \<and> long1 = long2 then 0
      else
        let dlong = radians (long1 - long2);
            dlat = radians (lat1 - lat2);
            a = sin (dlat / 2.0) * sin (dlat / 2.0)
                + cos (radians lat1) * cos (radians lat2) * sin (dlong / 2.0) * sin (dlong / 2.0);
            b = 2.0 * atan2 (sqrt a) (sqrt (1.0 - a))
        in EQUATORIAL_R * b * 1.0)"

section \<open>The WHERE clause of a geohash expansion\<close>

text \<open>
  \<^verbatim>\<open>str(n)\<close> for an integer: decimal digits, most significant first, with a minus sign
  for a negative number.
\<close>

definition digit_char :: "nat \<Rightarrow> char" where
  "digit_char d = ''0123456789'' ! d"

fun str_nat :: "nat \<Rightarrow> string" where
  "str_nat n = (if n < 10 then [digit_char n] else str_nat (n div 10) @ [digit_char (n mod 10)])"

definition str_int :: "int \<Rightarrow> string" where
  "str_int i = (if i < 0 then CHR ''-'' # str_nat (nat (- i)) else str_nat (nat i))"

text \<open>\<^verbatim>\<open>sep.join(xs)\<close>.\<close>

fun join :: "string \<Rightarrow> string list \<Rightarrow> string" where
  "join sep [] = []"
| "join sep [x] = x"
| "join sep (x # y # ys) = x @ sep @ join sep (y # ys)"

text \<open>
  One element of the list \<^verbatim>\<open>geohash.expand_uint64\<close> returns: a pair whose components are
  an integer or \<^verbatim>\<open>None\<close>.
\<close>

type_synonym bound_range = "int option \<times> int option"

text \<open>
  Python's truth value of a bound, as \<^verbatim>\<open>if bound_range[0]\<close> tests it: \<^verbatim>\<open>None\<close> is false,
  and so is the integer 0.
\<close>

fun truthy :: "int option \<Rightarrow> bool" where
  "truthy None = False"
| "truthy (Some v) = (v \<noteq> 0)"

text \<open>
  The body of the \<^verbatim>\<open>for\<close> loop: what one range does to \<^verbatim>\<open>sub_clauses\<close>. The bounds are
  only rendered in branches where they are truthy, hence integers.
\<close>

definition add_sub_clause :: "string \<Rightarrow> string list \<Rightarrow> bound_range \<Rightarrow> string list" where
  "add_sub_clause geoint_col_name sub_clauses bound_range =
     (if truthy (fst bound_range) \<and> truthy (snd bound_range) then
        sub_clauses @ [''('' @ geoint_col_name @ ''>='' @ str_int (the (fst bound_range))
                        @ '' AND '' @ geoint_col_name @ ''<'' @ str_int (the (snd bound_range)) @ '')'']
      else if truthy (fst bound_range) then
        sub_clauses @ [''('' @ geoint_col_name @ ''>='' @ str_int (the (fst bound_range)) @ '')'']
      else if truthy (snd bound_range) then
        sub_clauses @ [''('' @ geoint_col_name @ ''<'' @ str_int (the (snd bound_range)) @ '')'']
      else sub_clauses)"

text \<open>
  \<^verbatim>\<open>get_geohash_where_clause\<close>. The geohash module is not part of the repository; its
  function \<^verbatim>\<open>expand_uint64\<close> is the parameter \<open>expand\<close>.
\<close>

definition get_geohash_where_clause ::
  "(int \<Rightarrow> int \<Rightarrow> bound_range list) \<Rightarrow> int \<Rightarrow> int \<Rightarrow> string \<Rightarrow> string" where
  "get_geohash_where_clause expand coord_geoint prec geoint_col_name =
     (let sub_clauses = foldl (add_sub_clause geoint_col_name) [] (expand coord_geoint prec)
      in if length sub_clauses = 0 then ''''
         else ''('' @ join '' OR '' sub_clauses @ '')'')"

section \<open>The collaborators\<close>

text \<open>
  The geohash module and the database connection are outside the repository. They are
  taken as parameters, and every theorem below holds for all of them:
  \<^item> \<open>geohash_encode_uint64\<close> and \<open>geohash_expand_uint64\<close> are the two functions of
    the geohash module;
  \<^item> \<open>db_count k count_col w\<close> is the first field of the first row of
    \<^verbatim>\<open>select(columns=[func.count(count_col)], whereclause=w)\<close> when \<open>k\<close> count queries
    have been executed before it in this call, so that a database that answers the same
    query differently over time is covered;
  \<^item> \<open>db_fetch cols w\<close> is \<^verbatim>\<open>fetchall()\<close> of \<^verbatim>\<open>select(columns=cols, whereclause=w)\<close>
    (executed at most once per call);
  \<^item> \<open>row_col row c\<close> is \<^verbatim>\<open>row[c]\<close>.
  A column object is identified with its name. Every collaborator is assumed to return.
\<close>

record 'row env =
  geohash_encode_uint64 :: "real \<Rightarrow> real \<Rightarrow> int"
  geohash_expand_uint64 :: "int \<Rightarrow> int \<Rightarrow> bound_range list"
  db_count :: "nat \<Rightarrow> string \<Rightarrow> string \<Rightarrow> int"
  db_fetch :: "string list \<Rightarrow> string \<Rightarrow> 'row list"
  row_col :: "'row \<Rightarrow> string \<Rightarrow> real"

text \<open>The queries handed to \<^verbatim>\<open>db_conn.execute\<close>, in the order of execution.\<close>

datatype query = CountQuery string string | FetchQuery "string list" string

fun is_count_query :: "query \<Rightarrow> bool" where
  "is_count_query (CountQuery _ _) = True"
| "is_count_query (FetchQuery _ _) = False"

section \<open>List slicing\<close>

text \<open>
  \<^verbatim>\<open>xs[lower:upper]\<close> for integer bounds: a negative bound counts from the end, and both
  bounds are clipped to the list.
\<close>

definition py_slice :: "'a list \<Rightarrow> int \<Rightarrow> int \<Rightarrow> 'a list" where
  "py_slice xs lower upper =
     (let n = int (length xs);
          i = (if lower < 0 then max (lower + n) 0 else min lower n);
          j = (if upper < 0 then max (upper + n) 0 else min upper n)
      in take (nat (j - i)) (drop (nat i) xs))"

section \<open>The search loop\<close>

definition MAX_DB_HITS :: nat where
  "MAX_DB_HITS = 20"

definition max_result_cap :: "int \<Rightarrow> int" where
  "max_result_cap upper_cut = max upper_cut 20"

text \<open>
  The local variables of the loop, and the log of executed queries. \<^verbatim>\<open>where_clause\<close> is
  unbound before the first iteration in the source; the loop body assigns it before any
  read, and the model starts it at the empty string.
\<close>

record search_state =
  precision :: int
  previous_precision :: int
  previous_result_size :: int
  previous_where_clause :: string
  where_clause :: string
  stop :: bool
  fall_back :: bool
  loop_count :: nat
  queries :: "query list"

definition init_state :: search_state where
  "init_state =
     \<lparr>precision = 50, previous_precision = 50, previous_result_size = 0,
      previous_where_clause = '''', where_clause = '''', stop = False, fall_back = False,
      loop_count = 0, queries = []\<rparr>"

text \<open>
  The \<^verbatim>\<open>if\<close>/\<^verbatim>\<open>elif\<close> chain on \<^verbatim>\<open>percent_returned\<close>, followed by
  \<^verbatim>\<open>precision = max(0, precision)\<close>. The quotient of the two floats is the exact quotient
  here; for operands below \<open>2^52\<close> the comparisons with 0, 0.05, 0.25 and 0.5 come out
  the same on IEEE doubles.
\<close>

definition adjust_precision :: "int \<Rightarrow> int \<Rightarrow> int \<Rightarrow> int" where
  "adjust_precision result_size cap p =
     (let percent_returned = (of_int result_size :: real) / of_int cap;
          p' =
            (if percent_returned = 0 \<and> 1.0 / (of_int cap :: real) < 0.05 then
               (if p \<le> 4 then p - 1 else max 4 (p - 8))
             else if percent_returned = 0 \<and> 1.0 / (of_int cap :: real) \<ge> 0.05 then
               (if p \<le> 4 then p - 1 else max 4 (p - 7))
             else if percent_returned \<le> 0.05 then
               (if p \<le> 4 then p - 1 else max 4 (p - 6))
             else if percent_returned < 0.25 then
               (if p \<le> 4 then p - 1 else max 4 (p - 4))
             else if percent_returned < 0.5 then
               (if p \<le> 3 then p - 1 else max 3 (p - 2))
             else p - 1)
      in max 0 p')"

text \<open>
  One iteration of the \<^verbatim>\<open>while\<close> loop. \<open>s1\<close> is the state after the count query and
  \<^verbatim>\<open>loop_count += 1\<close>, \<open>s2\<close> after the comparison with \<^verbatim>\<open>previous_result_size\<close>,
  \<open>s3\<close> after the comparison with \<^verbatim>\<open>max_result_cap\<close>; the last \<^verbatim>\<open>if\<close> either
  falls back or adjusts the precision.
\<close>

definition loop_body ::
  "'row env \<Rightarrow> int \<Rightarrow> int \<Rightarrow> string \<Rightarrow> string \<Rightarrow> string \<Rightarrow> search_state \<Rightarrow> search_state" where
  "loop_body e coord_geoint upper_cut count_col geoint_col custom_where_clause s =
     (let w = get_geohash_where_clause (geohash_expand_uint64 e) coord_geoint (precision s) geoint_col
      in if length w = 0 then s\<lparr>where_clause := w, stop := True, fall_back := True\<rparr>
         else
           let w' = (if length custom_where_clause > 0 then w @ custom_where_clause else w);
               result_size = db_count e (loop_count s) count_col w';
               s1 = s\<lparr>where_clause := w', queries := queries s @ [CountQuery count_col w'],
                       loop_count := loop_count s + 1\<rparr>;
               s2 = (if result_size < previous_result_size s1
                     then s1\<lparr>where_clause := previous_where_clause s1, stop := True\<rparr>
                     else s1\<lparr>previous_result_size := result_size,
                             previous_precision := precision s1,
                             previous_where_clause := where_clause s1\<rparr>);
               s3 = (if result_size \<ge> max_result_cap upper_cut then s2\<lparr>stop := True\<rparr> else s2)
           in if result_size < max_result_cap upper_cut \<and> loop_count s3 \<ge> MAX_DB_HITS
              then s3\<lparr>stop := True, fall_back := True\<rparr>
              else s3\<lparr>precision := adjust_precision result_size (max_result_cap upper_cut) (precision s3)\<rparr>)"

text \<open>\<^verbatim>\<open>while not stop and not fall_back\<close>.\<close>

function search_loop ::
  "'row env \<Rightarrow> int \<Rightarrow> int \<Rightarrow> string \<Rightarrow> string \<Rightarrow> string \<Rightarrow> search_state \<Rightarrow> search_state" where
  "search_loop e coord_geoint upper_cut count_col geoint_col custom_where_clause s =
     (if \<not> stop s \<and> \<not> fall_back s
      then search_loop e coord_geoint upper_cut count_col geoint_col custom_where_clause
             (loop_body e coord_geoint upper_cut count_col geoint_col custom_where_clause s)
      else s)"
  by pat_completeness auto
termination
proof (relation "measure (\<lambda>(e, c, u, cc, g, cw, s).
          if stop s \<or> fall_back s then 0 else 1 + (MAX_DB_HITS - loop_count s))")
  show "wf (measure (\<lambda>(e :: 'row env, c :: int, u :: int, cc :: string, g :: string, cw :: string, s).
          if stop s \<or> fall_back s then 0 else 1 + (MAX_DB_HITS - loop_count s)))"
    by simp
next
  fix e :: "'row env" and c u :: int and cc g cw :: string and s :: search_state
  assume "\<not> stop s \<and> \<not> fall_back s"
  then show "((e, c, u, cc, g, cw, loop_body e c u cc g cw s), (e, c, u, cc, g, cw, s))
      \<in> measure (\<lambda>(e, c, u, cc, g, cw, s).
          if stop s \<or> fall_back s then 0 else 1 + (MAX_DB_HITS - loop_count s))"
    by (auto simp: loop_body_def Let_def MAX_DB_HITS_def)
qed

declare search_loop.simps [simp del]

section \<open>The search function\<close>

text \<open>
  \<^verbatim>\<open>select_cols\<close> is a reference to a list object of the caller, which
  \<^verbatim>\<open>select_cols.append\<close> changes in place. The store maps every reference to the
  content of its list; the function takes the store at call time and returns the store at
  return time.
\<close>

type_synonym ref = nat

type_synonym store = "ref \<Rightarrow> string list"

text \<open>
  What a call that returns leaves behind: the value returned (\<open>None\<close> is Python's
  \<^verbatim>\<open>None\<close>, the signal to fall back to another search method), the store, and the
  queries it executed.
\<close>

record 'row outcome =
  returned :: "'row list option"
  store_after :: store
  executed :: "query list"

text \<open>
  Everything after the parameter check, for arguments of the documented classes: numbers
  for the coordinates, integers for the cuts.
\<close>

definition search_body ::
  "'row env \<Rightarrow> real \<Rightarrow> real \<Rightarrow> int \<Rightarrow> int \<Rightarrow> ref \<Rightarrow> string \<Rightarrow> string \<Rightarrow> string \<Rightarrow> string \<Rightarrow> string
     \<Rightarrow> store \<Rightarrow> 'row outcome" where
  "search_body e latitude longitude lower_cut upper_cut select_cols count_col lat_col lon_col
       geoint_col custom_where_clause h =
     (let h1 = (if lat_col \<notin> set (h select_cols)
                then h(select_cols := h select_cols @ [lat_col]) else h);
          h2 = (if lon_col \<notin> set (h1 select_cols)
                then h1(select_cols := h1 select_cols @ [lon_col]) else h1);
          coord_geoint = geohash_encode_uint64 e latitude longitude;
          s = search_loop e coord_geoint upper_cut count_col geoint_col custom_where_clause init_state
      in if \<not> fall_back s then
           let data = db_fetch e (h2 select_cols) (where_clause s);
               sorted_list = map (\<lambda>row. (row, distance latitude longitude
                                               (row_col e row lat_col) (row_col e row lon_col))) data;
               sorted_list = sort_key snd sorted_list
           in \<lparr>returned = Some (py_slice (map fst sorted_list) lower_cut upper_cut),
               store_after = h2,
               executed = queries s @ [FetchQuery (h2 select_cols) (where_clause s)]\<rparr>
         else \<lparr>returned = None, store_after = h2, executed = queries s\<rparr>)"

text \<open>
  How a call ends. \<open>NotModelled\<close> stands for the calls whose arguments pass the
  parameter check without being of the documented classes: what Python does with them
  (an exception of its own at the first operation that cannot take the value, at the
  latest in the final slice) depends on the geohash module and is not followed here.
\<close>

datatype 'a completion = Raises error | Returns 'a | NotModelled

definition adaptive_geohash_nearby_search ::
  "'row env \<Rightarrow> pyval \<Rightarrow> pyval \<Rightarrow> pyval \<Rightarrow> pyval \<Rightarrow> ref \<Rightarrow> string \<Rightarrow> string \<Rightarrow> string \<Rightarrow> string
     \<Rightarrow> string \<Rightarrow> store \<Rightarrow> 'row outcome completion" where
  "adaptive_geohash_nearby_search e latitude longitude lower_cut upper_cut select_cols count_col
       lat_col lon_col geoint_col custom_where_clause h =
     (if invalid_params latitude longitude lower_cut upper_cut then Raises InvalidParamException
      else case (lower_cut, upper_cut) of
             (PyInt lo, PyInt up) \<Rightarrow>
               if isinstance_int_float latitude \<and> isinstance_int_float longitude
               then Returns (search_body e (num_of latitude) (num_of longitude) lo up select_cols
                               count_col lat_col lon_col geoint_col custom_where_clause h)
               else NotModelled
           | _ \<Rightarrow> NotModelled)"

section \<open>Notions of the specification\<close>

text \<open>
  The states the loop of one call passes through: the initial one, and the one after each
  iteration started in a state that has neither stopped nor fallen back.
\<close>

inductive reachable ::
  "'row env \<Rightarrow> int \<Rightarrow> int \<Rightarrow> string \<Rightarrow> string \<Rightarrow> string \<Rightarrow> search_state \<Rightarrow> bool"
  for e :: "'row env" and c u :: int and cc g cw :: string where
    start: "reachable e c u cc g cw init_state"
  | iterate: "reachable e c u cc g cw s \<Longrightarrow> \<not> stop s \<Longrightarrow> \<not> fall_back s
              \<Longrightarrow> reachable e c u cc g cw (loop_body e c u cc g cw s)"

text \<open>The distance of a fetched row to the query point.\<close>

definition row_distance :: "'row env \<Rightarrow> real \<Rightarrow> real \<Rightarrow> string \<Rightarrow> string \<Rightarrow> 'row \<Rightarrow> real" where
  "row_distance e latitude longitude lat_col lon_col row =
     distance latitude longitude (row_col e row lat_col) (row_col e row lon_col)"

text \<open>
  The yield-ratio table as the specification words it: a band for the ratio, a step and a
  floor for each band, a single step at or below the floor, and the global floor 0.
\<close>

datatype band = Zero_fine | Zero_coarse | At_most_5 | Below_25 | Below_50 | At_least_50

definition band_of :: "real \<Rightarrow> real \<Rightarrow> band" where
  "band_of percentReturned unit =
     (if percentReturned = 0 \<and> unit < 5 / 100 then Zero_fine
      else if percentReturned = 0 \<and> unit \<ge> 5 / 100 then Zero_coarse
      else if percentReturned \<le> 5 / 100 then At_most_5
      else if percentReturned < 25 / 100 then Below_25
      else if percentReturned < 50 / 100 then Below_50
      else At_least_50)"

fun band_step :: "band \<Rightarrow> int" where
  "band_step Zero_fine = 8"
| "band_step Zero_coarse = 7"
| "band_step At_most_5 = 6"
| "band_step Below_25 = 4"
| "band_step Below_50 = 2"
| "band_step At_least_50 = 1"

fun band_floor :: "band \<Rightarrow> int option" where
  "band_floor Below_50 = Some 3"
| "band_floor At_least_50 = None"
| "band_floor _ = Some 4"

definition table_precision :: "int \<Rightarrow> int \<Rightarrow> int \<Rightarrow> int" where
  "table_precision cnt maxResultCap p =
     (let b = band_of (of_int cnt / of_int maxResultCap) (1 / of_int maxResultCap)
      in max 0 (case band_floor b of
                  None \<Rightarrow> p - band_step b
                | Some f \<Rightarrow> if p \<le> f then p - 1 else max f (p - band_step b)))"

text \<open>
  The clause of one range as the specification words it, a bound counting as present when
  it is an integer other than 0.
\<close>

definition present :: "int option \<Rightarrow> bool" where
  "present b \<longleftrightarrow> (case b of None \<Rightarrow> False | Some v \<Rightarrow> v \<noteq> 0)"

definition range_clause :: "string \<Rightarrow> bound_range \<Rightarrow> string option" where
  "range_clause column r =
     (case r of (lower, upper) \<Rightarrow>
        if present lower \<and> present upper
        then Some (''('' @ column @ ''>='' @ str_int (the lower) @ '' AND ''
                     @ column @ ''<'' @ str_int (the upper) @ '')'')
        else if present lower then Some (''('' @ column @ ''>='' @ str_int (the lower) @ '')'')
        else if present upper then Some (''('' @ column @ ''<'' @ str_int (the upper) @ '')'')
        else None)"

definition disjunction :: "string list \<Rightarrow> string" where
  "disjunction clauses = (if clauses = [] then '''' else ''('' @ join '' OR '' clauses @ '')'')"

section \<open>Example collaborators\<close>

text \<open>
  Concrete databases on which the theorems below are instantiated. A row is an identifier
  with a latitude and a longitude; every row lies at the point \<open>(45, 7)\<close>.
\<close>

type_synonym demo_row = "nat \<times> real \<times> real"

definition demo_row_col :: "demo_row \<Rightarrow> string \<Rightarrow> real" where
  "demo_row_col r c = (if c = ''lat'' then fst (snd r) else snd (snd r))"

text \<open>A caller's store in which every reference holds the one column \<open>name\<close>.\<close>

definition demo_store :: store where
  "demo_store = (\<lambda>_. [''name''])"

text \<open>A dense table: every count query answers 25, the fetch returns three rows.\<close>

definition dense_env :: "demo_row env" where
  "dense_env =
     \<lparr>geohash_encode_uint64 = (\<lambda>_ _. 0),
      geohash_expand_uint64 = (\<lambda>_ _. [(Some 16, Some 32)]),
      db_count = (\<lambda>_ _ _. 25),
      db_fetch = (\<lambda>_ _. [(1, 45, 7), (2, 45, 7), (3, 45, 7)]),
      row_col = demo_row_col\<rparr>"

text \<open>
  A sparse table whose counts agree with its rows: five rows match the expansion at
  precision 50, three rows match the expansion at any other precision.
\<close>

definition sparse_fetch :: "string list \<Rightarrow> string \<Rightarrow> demo_row list" where
  "sparse_fetch cols w =
     (if w = ''((g>=16 AND g<32))''
      then [(1, 45, 7), (2, 45, 7), (3, 45, 7), (4, 45, 7), (5, 45, 7)]
      else [(1, 45, 7), (2, 45, 7), (3, 45, 7)])"

definition sparse_env :: "demo_row env" where
  "sparse_env =
     \<lparr>geohash_encode_uint64 = (\<lambda>_ _. 0),
      geohash_expand_uint64 = (\<lambda>_ p. if p = 50 then [(Some 16, Some 32)] else [(Some 64, None)]),
      db_count = (\<lambda>_ _ w. int (length (sparse_fetch [] w))),
      db_fetch = sparse_fetch,
      row_col = demo_row_col\<rparr>"

text \<open>The state of the loop after its first iteration on the sparse table (\<open>upper_cut = 8\<close>).\<close>

definition sparse_state :: search_state where
  "sparse_state =
     \<lparr>precision = 48, previous_precision = 50, previous_result_size = 5,
      previous_where_clause = ''((g>=16 AND g<32))'', where_clause = ''((g>=16 AND g<32))'',
      stop = False, fall_back = False, loop_count = 1,
      queries = [CountQuery ''id'' ''((g>=16 AND g<32))'']\<rparr>"

text \<open>
  A table that answers 10 to the first nineteen count queries and 9 to the twentieth, and
  the state of the loop after \<open>k\<close> iterations on it (for \<open>upper_cut = 10\<close>).
\<close>

definition budget_env :: "demo_row env" where
  "budget_env =
     \<lparr>geohash_encode_uint64 = (\<lambda>_ _. 0),
      geohash_expand_uint64 = (\<lambda>_ _. [(Some 16, Some 32)]),
      db_count = (\<lambda>k _ _. if k < 19 then 10 else 9),
      db_fetch = (\<lambda>_ _. [(1, 45, 7)]),
      row_col = demo_row_col\<rparr>"

definition budget_state :: "nat \<Rightarrow> search_state" where
  "budget_state k =
     \<lparr>precision = 50 - int k,
      previous_precision = (if k = 0 then 50 else 51 - int k),
      previous_result_size = (if k = 0 then 0 else 10),
      previous_where_clause = (if k = 0 then '''' else ''((g>=16 AND g<32))''),
      where_clause = (if k = 0 then '''' else ''((g>=16 AND g<32))''),
      stop = False, fall_back = False, loop_count = k,
      queries = replicate k (CountQuery ''id'' ''((g>=16 AND g<32))'')\<rparr>"

text \<open>An expansion that is empty at every precision, and one with every kind of range.\<close>

definition empty_env :: "demo_row env" where
  "empty_env =
     \<lparr>geohash_encode_uint64 = (\<lambda>_ _. 0),
      geohash_expand_uint64 = (\<lambda>_ _. []),
      db_count = (\<lambda>_ _ _. 25),
      db_fetch = (\<lambda>_ _. [(1, 45, 7)]),
      row_col = demo_row_col\<rparr>"

definition mixed_expand :: "int \<Rightarrow> int \<Rightarrow> bound_range list" where
  "mixed_expand c p = [(Some 16, Some 32), (None, Some 5), (Some 7, None), (None, None), (Some 0, None)]"

section \<open>Distance\<close>

lemma radians_swap: "radians (x - y) = - radians (y - x)"
  unfolding radians_def by (simp add: left_diff_distrib diff_divide_distrib)

lemma sin_half_sq_swap:
  "sin (radians (x - y) / 2.0) * sin (radians (x - y) / 2.0)
   = sin (radians (y - x) / 2.0) * sin (radians (y - x) / 2.0)"
  by (simp add: radians_swap [of x y])

text \<open>
  Claim C9. For all coordinate pairs, the distance from the first point to the second equals
  the distance from the second to the first (floats idealised as real numbers).
\<close>

theorem distance_symmetric:
  "distance lat1 lon1 lat2 lon2 = distance lat2 lon2 lat1 lon1"
proof (cases "lat1 = lat2 \<and> lon1 = lon2")
  case True
  then show ?thesis by (simp add: distance_def)
next
  case False
  then have c1: "(lat1 = lat2 \<and> lon1 = lon2) = False"
    and c2: "(lat2 = lat1 \<and> lon2 = lon1) = False"
    by auto
  have a: "sin (radians (lat1 - lat2) / 2.0) * sin (radians (lat1 - lat2) / 2.0)
           + cos (radians lat1) * cos (radians lat2)
             * sin (radians (lon1 - lon2) / 2.0) * sin (radians (lon1 - lon2) / 2.0)
         = sin (radians (lat2 - lat1) / 2.0) * sin (radians (lat2 - lat1) / 2.0)
           + cos (radians lat2) * cos (radians lat1)
             * sin (radians (lon2 - lon1) / 2.0) * sin (radians (lon2 - lon1) / 2.0)"
    using sin_half_sq_swap [of lat1 lat2] sin_half_sq_swap [of lon1 lon2]
    by (simp only: mult.assoc mult.commute [of "cos (radians lat1)" "cos (radians lat2)"])
  show ?thesis
    by (simp only: distance_def Let_def c1 c2 if_False a)
qed

theorem distance_symmetric_witness:
  "distance 45 7 46 8 = distance 46 8 45 7"
  by (rule distance_symmetric)

section \<open>The parameter check\<close>

text \<open>
  Claim C5 asks for \<^verbatim>\<open>InvalidParamException\<close> whenever latitude or longitude is not a
  number or a cut is not an integer. The check as written raises in one situation only:
  the latitude is not a number while the longitude is a number and both cuts are
  integers.
\<close>

theorem invalid_param_raised_iff:
  "adaptive_geohash_nearby_search e latitude longitude lower_cut upper_cut select_cols count_col
       lat_col lon_col geoint_col custom_where_clause h = Raises InvalidParamException
   \<longleftrightarrow> \<not> isinstance_int_float latitude \<and> isinstance_int_float longitude
       \<and> isinstance_int lower_cut \<and> isinstance_int upper_cut"
proof -
  have "invalid_params latitude longitude lower_cut upper_cut
        \<longleftrightarrow> \<not> isinstance_int_float latitude \<and> isinstance_int_float longitude
            \<and> isinstance_int lower_cut \<and> isinstance_int upper_cut"
    unfolding invalid_params_def by blast
  moreover have "adaptive_geohash_nearby_search e latitude longitude lower_cut upper_cut
       select_cols count_col lat_col lon_col geoint_col custom_where_clause h
       = Raises InvalidParamException
     \<longleftrightarrow> invalid_params latitude longitude lower_cut upper_cut"
    by (cases "invalid_params latitude longitude lower_cut upper_cut")
       (simp_all add: adaptive_geohash_nearby_search_def split: pyval.split)
  ultimately show ?thesis by simp
qed

text \<open>A longitude that is a string goes through the check unnoticed.\<close>

theorem invalid_longitude_not_rejected:
  "\<not> isinstance_int_float (PyStr ''abc'')
   \<and> \<not> invalid_params (PyFloat 45) (PyStr ''abc'') (PyInt 0) (PyInt 10)
   \<and> adaptive_geohash_nearby_search dense_env (PyFloat 45) (PyStr ''abc'') (PyInt 0) (PyInt 10)
        0 ''id'' ''lat'' ''lon'' ''g'' [] demo_store \<noteq> Raises InvalidParamException"
  using invalid_param_raised_iff [of dense_env "PyFloat 45" "PyStr ''abc''" "PyInt 0" "PyInt 10"
          0 "''id''" "''lat''" "''lon''" "''g''" "[]" demo_store]
  by (simp add: invalid_params_def)

section \<open>The predicate builder\<close>

lemma truthy_present: "truthy b = present b"
  by (cases b) (simp_all add: present_def)

lemma add_sub_clause_range_clause:
  "add_sub_clause col acc r = acc @ (case range_clause col r of None \<Rightarrow> [] | Some c \<Rightarrow> [c])"
  by (cases r) (simp add: add_sub_clause_def range_clause_def truthy_present)

lemma foldl_add_sub_clause:
  "foldl (add_sub_clause col) acc rs = acc @ List.map_filter (range_clause col) rs"
proof (induction rs arbitrary: acc)
  case Nil
  then show ?case by simp
next
  case (Cons r rs)
  have "foldl (add_sub_clause col) acc (r # rs)
        = foldl (add_sub_clause col) (add_sub_clause col acc r) rs"
    by simp
  also have "\<dots> = add_sub_clause col acc r @ List.map_filter (range_clause col) rs"
    by (rule Cons.IH)
  also have "\<dots> = acc @ List.map_filter (range_clause col) (r # rs)"
    by (simp add: add_sub_clause_range_clause split: option.split)
  finally show ?case .
qed

lemma where_clause_disjunction:
  "get_geohash_where_clause expand c p col
   = disjunction (List.map_filter (range_clause col) (expand c p))"
  by (simp add: get_geohash_where_clause_def foldl_add_sub_clause disjunction_def)

lemma map_filter_empty_iff:
  "List.map_filter f xs = [] \<longleftrightarrow> (\<forall>x\<in>set xs. f x = None)"
  by (induction xs) (auto split: option.splits)

text \<open>
  Claim C6, as stated, counts a bound as present whenever it is not \<^verbatim>\<open>None\<close>. The source
  tests the truth value of the bound, so a bound 0 is treated like an absent one: for the
  range \<open>(0, 5)\<close> only the upper bound is rendered.
\<close>

theorem zero_bound_counterexample:
  "get_geohash_where_clause (\<lambda>_ _. [(Some 0, Some 5)]) 0 50 ''g'' = ''((g<5))''
   \<and> get_geohash_where_clause (\<lambda>_ _. [(Some 0, Some 5)]) 0 50 ''g'' \<noteq> ''((g>=0 AND g<5))''"
  by (simp add: get_geohash_where_clause_def add_sub_clause_def str_int_def digit_char_def)

text \<open>
  Claim C6, amended. With a bound counting as present when it is an integer other than 0:
  for every sequence of ranges and every column name the builder emits, per range,
  \<open>column >= lower AND column < upper\<close> when both bounds are present, \<open>column >= lower\<close>
  when only the lower one is, \<open>column < upper\<close> when only the upper one is, and nothing
  when neither is; it joins the emitted clauses with \<open>OR\<close>; and it returns the empty
  string exactly when no range emits a clause.
\<close>

theorem where_clause_by_ranges:
  "get_geohash_where_clause expand c p col
     = disjunction (List.map_filter (range_clause col) (expand c p))
   \<and> (get_geohash_where_clause expand c p col = ''''
        \<longleftrightarrow> (\<forall>r\<in>set (expand c p). range_clause col r = None))"
proof -
  have "disjunction cls = '''' \<longleftrightarrow> cls = []" for cls
    by (simp add: disjunction_def)
  then show ?thesis
    by (simp add: where_clause_disjunction map_filter_empty_iff)
qed

theorem where_clause_by_ranges_witness:
  "get_geohash_where_clause mixed_expand 0 50 ''g'' = ''((g>=16 AND g<32) OR (g<5) OR (g>=7))''
   \<and> get_geohash_where_clause mixed_expand 0 50 ''g'' \<noteq> ''''
   \<and> range_clause ''g'' (Some 16, Some 32) \<noteq> None"
  using where_clause_by_ranges [of mixed_expand 0 50 "''g''"]
  by (simp add: mixed_expand_def disjunction_def range_clause_def present_def str_int_def
        digit_char_def)

section \<open>The loop and its budget\<close>

lemma search_loop_stopped:
  "stop s \<or> fall_back s \<Longrightarrow> search_loop e c u cc g cw s = s"
  by (subst search_loop.simps) auto

lemma search_loop_step:
  "\<not> stop s \<Longrightarrow> \<not> fall_back s \<Longrightarrow>
   search_loop e c u cc g cw s = search_loop e c u cc g cw (loop_body e c u cc g cw s)"
  by (subst search_loop.simps) simp

lemma loop_body_continues:
  assumes "\<not> stop (loop_body e c u cc g cw s)" "\<not> fall_back (loop_body e c u cc g cw s)"
  shows "loop_count (loop_body e c u cc g cw s) = Suc (loop_count s)"
    and "Suc (loop_count s) < MAX_DB_HITS"
    and "previous_result_size (loop_body e c u cc g cw s) < max_result_cap u"
  using assms by (auto simp: loop_body_def Let_def split: if_splits)

lemma loop_body_budget:
  "stop (loop_body e c u cc g cw s) \<or> fall_back (loop_body e c u cc g cw s)
   \<or> loop_count (loop_body e c u cc g cw s) < MAX_DB_HITS"
  by (auto simp: loop_body_def Let_def split: if_splits)

lemma loop_body_loop_count:
  "loop_count (loop_body e c u cc g cw s) \<le> Suc (loop_count s)"
  by (simp add: loop_body_def Let_def)

lemma loop_body_queries:
  "length (filter is_count_query (queries s)) = loop_count s \<Longrightarrow>
   length (filter is_count_query (queries (loop_body e c u cc g cw s))) = loop_count (loop_body e c u cc g cw s)"
  by (simp add: loop_body_def Let_def)

lemma search_loop_exit:
  "stop (search_loop e c u cc g cw s) \<or> fall_back (search_loop e c u cc g cw s)"
proof (induction e c u cc g cw s rule: search_loop.induct)
  case (1 e c u cc g cw s)
  show ?case
  proof (cases "\<not> stop s \<and> \<not> fall_back s")
    case True
    then show ?thesis using 1 by (simp add: search_loop_step)
  next
    case False
    then show ?thesis by (auto simp: search_loop_stopped)
  qed
qed

lemma search_loop_iterations:
  "stop s \<or> fall_back s \<or> loop_count s < MAX_DB_HITS \<Longrightarrow>
   \<exists>n\<le>MAX_DB_HITS - loop_count s. search_loop e c u cc g cw s = (loop_body e c u cc g cw ^^ n) s"
proof (induction e c u cc g cw s rule: search_loop.induct)
  case (1 e c u cc g cw s)
  let ?s' = "loop_body e c u cc g cw s"
  show ?case
  proof (cases "\<not> stop s \<and> \<not> fall_back s")
    case False
    then have "search_loop e c u cc g cw s = (loop_body e c u cc g cw ^^ 0) s"
      by (auto simp: search_loop_stopped)
    then show ?thesis by blast
  next
    case True
    with "1.prems" have lt: "loop_count s < MAX_DB_HITS" by simp
    have pre: "stop ?s' \<or> fall_back ?s' \<or> loop_count ?s' < MAX_DB_HITS"
      by (rule loop_body_budget)
    from "1.IH" [OF True pre] obtain n where
      n: "n \<le> MAX_DB_HITS - loop_count ?s'"
         "search_loop e c u cc g cw ?s' = (loop_body e c u cc g cw ^^ n) ?s'" by blast
    show ?thesis
    proof (cases "stop ?s' \<or> fall_back ?s'")
      case True
      then have "search_loop e c u cc g cw s = (loop_body e c u cc g cw ^^ 1) s"
        using \<open>\<not> stop s \<and> \<not> fall_back s\<close> by (simp add: search_loop_step search_loop_stopped)
      moreover have "1 \<le> MAX_DB_HITS - loop_count s" using lt by simp
      ultimately show ?thesis by blast
    next
      case False
      then have "loop_count ?s' = Suc (loop_count s)"
        using loop_body_continues(1) [of e c u cc g cw s] by simp
      with n(1) lt have "Suc n \<le> MAX_DB_HITS - loop_count s" by simp
      moreover have "search_loop e c u cc g cw s = (loop_body e c u cc g cw ^^ Suc n) s"
        using True n(2) by (simp add: search_loop_step funpow_swap1)
      ultimately show ?thesis by blast
    qed
  qed
qed

lemma search_loop_count_queries:
  "length (filter is_count_query (queries s)) = loop_count s \<Longrightarrow>
   length (filter is_count_query (queries (search_loop e c u cc g cw s))) = loop_count (search_loop e c u cc g cw s)"
proof (induction e c u cc g cw s rule: search_loop.induct)
  case (1 e c u cc g cw s)
  show ?case
  proof (cases "\<not> stop s \<and> \<not> fall_back s")
    case True
    then show ?thesis using 1 by (simp add: search_loop_step loop_body_queries)
  next
    case False
    then show ?thesis using "1.prems" by (auto simp: search_loop_stopped)
  qed
qed

lemma search_loop_budget:
  "loop_count s \<le> MAX_DB_HITS \<Longrightarrow> stop s \<or> fall_back s \<or> loop_count s < MAX_DB_HITS \<Longrightarrow>
   loop_count (search_loop e c u cc g cw s) \<le> MAX_DB_HITS"
proof (induction e c u cc g cw s rule: search_loop.induct)
  case (1 e c u cc g cw s)
  let ?s' = "loop_body e c u cc g cw s"
  show ?case
  proof (cases "\<not> stop s \<and> \<not> fall_back s")
    case True
    with "1.prems" have lt: "loop_count s < MAX_DB_HITS" by simp
    have a: "loop_count ?s' \<le> MAX_DB_HITS"
      using loop_body_loop_count [of e c u cc g cw s] lt by simp
    have b: "stop ?s' \<or> fall_back ?s' \<or> loop_count ?s' < MAX_DB_HITS"
      by (rule loop_body_budget)
    show ?thesis using "1.IH" [OF True a b] True by (simp add: search_loop_step)
  next
    case False
    then show ?thesis using "1.prems" by (auto simp: search_loop_stopped)
  qed
qed

lemma reachable_budget:
  "reachable e c u cc g cw s \<Longrightarrow>
   loop_count s \<le> MAX_DB_HITS \<and> (stop s \<or> fall_back s \<or> loop_count s < MAX_DB_HITS)"
proof (induction rule: reachable.induct)
  case start
  show ?case by (simp add: init_state_def MAX_DB_HITS_def)
next
  case (iterate s)
  then have lt: "loop_count s < MAX_DB_HITS" by simp
  show ?case
    using loop_body_loop_count [of e c u cc g cw s] lt
      loop_body_budget [of e c u cc g cw s] by auto
qed

lemmas demo_eval = loop_body_def get_geohash_where_clause_def add_sub_clause_def
  str_int_def digit_char_def init_state_def max_result_cap_def MAX_DB_HITS_def adjust_precision_def
  Let_def


lemma budget_clause:
  "get_geohash_where_clause (geohash_expand_uint64 budget_env) c p ''g'' = ''((g>=16 AND g<32))''"
  by (simp add: get_geohash_where_clause_def add_sub_clause_def str_int_def digit_char_def budget_env_def)

lemma adjust_half: "adjust_precision 10 20 p = max 0 (p - 1)"
  by (simp add: adjust_precision_def)

lemma budget_step:
  "k < 19 \<Longrightarrow> loop_body budget_env 0 10 ''id'' ''g'' [] (budget_state k) = budget_state (Suc k)"
  unfolding loop_body_def budget_clause Let_def
  by (simp add: budget_env_def budget_state_def replicate_append_same adjust_half max_result_cap_def MAX_DB_HITS_def)


lemma budget_last:
  "loop_body budget_env 0 10 ''id'' ''g'' [] (budget_state 19) =
     \<lparr>precision = 31, previous_precision = 32, previous_result_size = 10,
      previous_where_clause = ''((g>=16 AND g<32))'', where_clause = ''((g>=16 AND g<32))'',
      stop = True, fall_back = True, loop_count = 20,
      queries = CountQuery ''id'' ''((g>=16 AND g<32))''
                  # replicate 19 (CountQuery ''id'' ''((g>=16 AND g<32))'')\<rparr>"
  unfolding loop_body_def budget_clause Let_def
  by (simp add: budget_env_def budget_state_def max_result_cap_def MAX_DB_HITS_def
        replicate_append_same)

lemma budget_state_0: "budget_state 0 = init_state"
  by (simp add: budget_state_def init_state_def)

lemma budget_reachable:
  "k \<le> 19 \<Longrightarrow> reachable budget_env 0 10 ''id'' ''g'' [] (budget_state k)"
proof (induction k)
  case 0
  show ?case by (simp add: budget_state_0 reachable.start)
next
  case (Suc k)
  then have "reachable budget_env 0 10 ''id'' ''g'' [] (budget_state k)" by simp
  then have "reachable budget_env 0 10 ''id'' ''g'' []
               (loop_body budget_env 0 10 ''id'' ''g'' [] (budget_state k))"
    by (rule reachable.iterate) (simp_all add: budget_state_def)
  with Suc.prems show ?case by (simp add: budget_step)
qed

lemma reachable_search_loop:
  "reachable e c u cc g cw s \<Longrightarrow>
   search_loop e c u cc g cw s = search_loop e c u cc g cw init_state"
  by (induction rule: reachable.induct) (simp_all add: search_loop_step [symmetric])

lemma budget_final:
  "search_loop budget_env 0 10 ''id'' ''g'' [] init_state
   = loop_body budget_env 0 10 ''id'' ''g'' [] (budget_state 19)"
proof -
  have "search_loop budget_env 0 10 ''id'' ''g'' [] init_state
        = search_loop budget_env 0 10 ''id'' ''g'' [] (budget_state 19)"
    using reachable_search_loop [OF budget_reachable [of 19]] by simp
  also have "\<dots> = search_loop budget_env 0 10 ''id'' ''g'' []
                     (loop_body budget_env 0 10 ''id'' ''g'' [] (budget_state 19))"
    by (rule search_loop_step) (simp_all add: budget_state_def)
  also have "\<dots> = loop_body budget_env 0 10 ''id'' ''g'' [] (budget_state 19)"
    by (rule search_loop_stopped) (simp add: budget_last)
  finally show ?thesis .
qed


text \<open>
  Claim C3. Whatever the collaborators answer, the loop stops, after at most 20 iterations;
  \<^verbatim>\<open>loop_count\<close> never exceeds 20 in any state the loop passes through, it counts the
  count queries executed, and a call executes at most 20 of them.
\<close>

theorem search_loop_within_budget:
  "(stop (search_loop e c u cc g cw init_state) \<or> fall_back (search_loop e c u cc g cw init_state))
   \<and> (\<exists>n\<le>20. search_loop e c u cc g cw init_state = (loop_body e c u cc g cw ^^ n) init_state)
   \<and> (\<forall>s. reachable e c u cc g cw s \<longrightarrow> loop_count s \<le> 20)
   \<and> loop_count (search_loop e c u cc g cw init_state) \<le> 20
   \<and> length (filter is_count_query (queries (search_loop e c u cc g cw init_state)))
       = loop_count (search_loop e c u cc g cw init_state)
   \<and> length (filter is_count_query
        (executed (search_body e latitude longitude lower_cut upper_cut select_cols cc lat_col lon_col g cw h))) \<le> 20"
proof -
  let ?f = "search_loop e c u cc g cw init_state"
  have i0: "loop_count init_state = 0" "queries init_state = []"
    by (simp_all add: init_state_def)
  have a: "stop ?f \<or> fall_back ?f" by (rule search_loop_exit)
  have b: "\<exists>n\<le>20. ?f = (loop_body e c u cc g cw ^^ n) init_state"
    using search_loop_iterations [of init_state e c u cc g cw] by (simp add: i0 MAX_DB_HITS_def)
  have c: "\<forall>s. reachable e c u cc g cw s \<longrightarrow> loop_count s \<le> 20"
    using reachable_budget [of e c u cc g cw] by (simp add: MAX_DB_HITS_def)
  have d: "loop_count (search_loop e c' u' cc g cw init_state) \<le> 20" for c' u'
    using search_loop_budget [of init_state e c' u' cc g cw] by (simp add: i0 MAX_DB_HITS_def)
  have e: "length (filter is_count_query (queries (search_loop e c' u' cc g cw init_state)))
           = loop_count (search_loop e c' u' cc g cw init_state)" for c' u'
    using search_loop_count_queries [of init_state e c' u' cc g cw] by (simp add: i0)
  have f: "length (filter is_count_query
        (executed (search_body e latitude longitude lower_cut upper_cut select_cols cc lat_col lon_col g cw h))) \<le> 20"
    using d [of "geohash_encode_uint64 e latitude longitude" upper_cut]
          e [of "geohash_encode_uint64 e latitude longitude" upper_cut]
    by (simp add: search_body_def Let_def)
  from a b c d e f show ?thesis by blast
qed


theorem search_loop_within_budget_witness:
  "loop_count (search_loop budget_env 0 10 ''id'' ''g'' [] init_state) = 20
   \<and> loop_count (search_loop budget_env 0 10 ''id'' ''g'' [] init_state) \<le> 20
   \<and> fall_back (search_loop budget_env 0 10 ''id'' ''g'' [] init_state)"
  using search_loop_within_budget [of budget_env 0 10 "''id''" "''g''" "[]"]
  by (simp add: budget_final budget_last)


section \<open>The precision update\<close>

lemma adjust_precision_table: "adjust_precision r cap p = table_precision r cap p"
proof -
  define pr where "pr = (of_int r :: real) / of_int cap"
  define un where "un = 1 / (of_int cap :: real)"
  have un': "1.0 / (of_int cap :: real) = un" by (simp add: un_def)
  note defs = adjust_precision_def table_precision_def band_of_def Let_def un'
    pr_def [symmetric] un_def [symmetric]
  consider (a) "pr = 0" "un < 0.05" | (b) "pr = 0" "\<not> un < 0.05" | (c) "pr \<noteq> 0" "pr \<le> 0.05"
    | (d) "pr \<noteq> 0" "\<not> pr \<le> 0.05" "pr < 0.25" | (e) "\<not> pr < 0.25" "pr < 0.5" | (f) "\<not> pr < 0.5"
    by linarith
  then show ?thesis
  proof cases
    case a then show ?thesis unfolding defs by simp
  next
    case b then show ?thesis unfolding defs by simp
  next
    case c then show ?thesis unfolding defs by simp
  next
    case d then show ?thesis unfolding defs by simp
  next
    case e then show ?thesis unfolding defs by simp
  next
    case f then show ?thesis unfolding defs by simp
  qed
qed


text \<open>
  Claim C2. In every iteration after which the loop has neither stopped nor fallen back,
  the new precision is the one the yield-ratio table gives for the count just returned,
  the cap \<open>max(upper_cut, 20)\<close> and the old precision, with the global floor 0 applied.
\<close>

theorem precision_follows_yield_table:
  assumes "\<not> stop (loop_body e c u cc g cw s)" "\<not> fall_back (loop_body e c u cc g cw s)"
  shows "precision (loop_body e c u cc g cw s)
         = table_precision
             (db_count e (loop_count s) cc
                (get_geohash_where_clause (geohash_expand_uint64 e) c (precision s) g @ cw))
             (max u 20) (precision s)"
  using assms
  by (auto simp: loop_body_def Let_def adjust_precision_table max_result_cap_def split: if_splits)


theorem precision_follows_yield_table_witness:
  "\<not> stop (loop_body sparse_env 0 8 ''id'' ''g'' [] init_state)
   \<and> \<not> fall_back (loop_body sparse_env 0 8 ''id'' ''g'' [] init_state)
   \<and> precision (loop_body sparse_env 0 8 ''id'' ''g'' [] init_state) = table_precision 5 20 50
   \<and> table_precision 5 20 50 = 48"
proof -
  have h1: "\<not> stop (loop_body sparse_env 0 8 ''id'' ''g'' [] init_state)"
    by (simp add: demo_eval sparse_env_def sparse_fetch_def)
  have h2: "\<not> fall_back (loop_body sparse_env 0 8 ''id'' ''g'' [] init_state)"
    by (simp add: demo_eval sparse_env_def sparse_fetch_def)
  have t: "table_precision 5 20 50 = 48"
    by (simp add: table_precision_def band_of_def)
  have "db_count sparse_env (loop_count init_state) ''id''
          (get_geohash_where_clause (geohash_expand_uint64 sparse_env) 0 (precision init_state) ''g'' @ []) = 5"
    by (simp add: demo_eval sparse_env_def sparse_fetch_def)
  with precision_follows_yield_table [OF h1 h2] h1 h2 t show ?thesis
    by (simp add: init_state_def)
qed


section \<open>The call as a whole\<close>

lemma insort_key_pairs:
  "insort_key snd (x, d x) (map (\<lambda>r. (r, d r)) ys) = map (\<lambda>r. (r, d r)) (insort_key d x ys)"
  by (induction ys) simp_all

lemma sort_key_pairs:
  "map fst (sort_key snd (map (\<lambda>r. (r, d r)) xs)) = sort_key d xs"
proof -
  have "sort_key snd (map (\<lambda>r. (r, d r)) xs) = map (\<lambda>r. (r, d r)) (sort_key d xs)"
    by (induction xs) (simp_all add: insort_key_pairs)
  then show ?thesis by (simp add: comp_def)
qed

lemma store_after_search_body:
  "store_after (search_body e latitude longitude lower_cut upper_cut select_cols cc lat_col lon_col g cw h) r
   = (if r = select_cols
      then h select_cols @ (if lat_col \<in> set (h select_cols) then [] else [lat_col])
             @ (if lon_col \<in> set (h select_cols) \<or> lon_col = lat_col then [] else [lon_col])
      else h r)"
  by (auto simp: search_body_def Let_def)

lemma returned_search_body:
  "returned (search_body e latitude longitude lower_cut upper_cut select_cols cc lat_col lon_col g cw h)
   = (if fall_back (search_loop e (geohash_encode_uint64 e latitude longitude) upper_cut cc g cw init_state)
      then None
      else Some (py_slice
              (sort_key (\<lambda>row. distance latitude longitude (row_col e row lat_col) (row_col e row lon_col))
                 (db_fetch e
                    (store_after (search_body e latitude longitude lower_cut upper_cut select_cols cc lat_col lon_col g cw h) select_cols)
                    (where_clause (search_loop e (geohash_encode_uint64 e latitude longitude) upper_cut cc g cw init_state))))
              lower_cut upper_cut))"
  by (simp add: search_body_def Let_def sort_key_pairs)

lemma executed_search_body:
  "executed (search_body e latitude longitude lower_cut upper_cut select_cols cc lat_col lon_col g cw h)
   = queries (search_loop e (geohash_encode_uint64 e latitude longitude) upper_cut cc g cw init_state)
     @ (if fall_back (search_loop e (geohash_encode_uint64 e latitude longitude) upper_cut cc g cw init_state)
        then []
        else [FetchQuery
                (store_after (search_body e latitude longitude lower_cut upper_cut select_cols cc lat_col lon_col g cw h) select_cols)
                (where_clause (search_loop e (geohash_encode_uint64 e latitude longitude) upper_cut cc g cw init_state))])"
  by (simp add: search_body_def Let_def)

lemma Returns_search_body:
  "adaptive_geohash_nearby_search e latitude longitude (PyInt lo) (PyInt up) select_cols cc lat_col lon_col g cw h = Returns out
   \<Longrightarrow> out = search_body e (num_of latitude) (num_of longitude) lo up select_cols cc lat_col lon_col g cw h"
  by (simp add: adaptive_geohash_nearby_search_def split: if_splits)

lemma Returns_cases:
  "adaptive_geohash_nearby_search e latitude longitude lower_cut upper_cut select_cols cc lat_col lon_col g cw h = Returns out
   \<Longrightarrow> \<exists>lo up. out = search_body e (num_of latitude) (num_of longitude) lo up select_cols cc lat_col lon_col g cw h"
  by (auto simp: adaptive_geohash_nearby_search_def split: if_splits pyval.splits)

lemma py_slice_nonneg:
  "0 \<le> lo \<Longrightarrow> 0 \<le> up \<Longrightarrow> py_slice xs lo up = take (nat (up - lo)) (drop (nat lo) xs)"
  by (auto simp: py_slice_def Let_def min_def)

lemma py_slice_length_le:
  "0 \<le> lo \<Longrightarrow> lo \<le> up \<Longrightarrow> int (length (py_slice xs lo up)) \<le> up - lo"
  by (simp add: py_slice_nonneg)

lemma py_slice_length_eq:
  "0 \<le> lo \<Longrightarrow> lo \<le> up \<Longrightarrow> up \<le> int (length xs) \<Longrightarrow> int (length (py_slice xs lo up)) = up - lo"
  by (simp add: py_slice_nonneg)

lemma sorted_py_slice:
  "sorted (map f xs) \<Longrightarrow> sorted (map f (py_slice xs lo up))"
  by (simp add: py_slice_def Let_def take_map [symmetric] drop_map [symmetric] sorted_wrt_take sorted_wrt_drop del: take_map drop_map)



lemma search_loop_one_iteration:
  "\<not> stop s \<Longrightarrow> \<not> fall_back s \<Longrightarrow>
   stop (loop_body e c u cc g cw s) \<or> fall_back (loop_body e c u cc g cw s) \<Longrightarrow>
   search_loop e c u cc g cw s = loop_body e c u cc g cw s"
  by (simp add: search_loop_step search_loop_stopped)

lemma empty_clause_first_iteration:
  assumes "geohash_expand_uint64 e c 50 = []"
  shows "search_loop e c u cc g cw init_state
         = init_state\<lparr>where_clause := [], stop := True, fall_back := True\<rparr>"
proof -
  have b: "loop_body e c u cc g cw init_state
           = init_state\<lparr>where_clause := [], stop := True, fall_back := True\<rparr>"
    using assms by (simp add: loop_body_def get_geohash_where_clause_def init_state_def)
  have "search_loop e c u cc g cw init_state = loop_body e c u cc g cw init_state"
    by (rule search_loop_one_iteration) (simp_all add: b, simp_all add: init_state_def)
  with b show ?thesis by simp
qed

lemma fetched_rows:
  assumes "returned (search_body e latitude longitude lower_cut upper_cut select_cols cc lat_col lon_col g cw h) = Some rows"
  shows "\<exists>qs cols w.
           executed (search_body e latitude longitude lower_cut upper_cut select_cols cc lat_col lon_col g cw h)
             = qs @ [FetchQuery cols w]
           \<and> rows = py_slice (sort_key (row_distance e latitude longitude lat_col lon_col) (db_fetch e cols w))
                      lower_cut upper_cut"
proof -
  let ?f = "search_loop e (geohash_encode_uint64 e latitude longitude) upper_cut cc g cw init_state"
  from assms have nf: "\<not> fall_back ?f"
    by (simp add: returned_search_body split: if_splits)
  have k: "(\<lambda>row. distance latitude longitude (row_col e row lat_col) (row_col e row lon_col))
           = row_distance e latitude longitude lat_col lon_col"
    by (simp add: row_distance_def fun_eq_iff)
  from assms nf show ?thesis
    by (simp add: returned_search_body executed_search_body k)
qed

lemma dense_returns:
  "adaptive_geohash_nearby_search dense_env (PyFloat 45) (PyFloat 7) (PyInt 0) (PyInt 2)
     0 ''id'' ''lat'' ''lon'' ''g'' [] demo_store
   = Returns (search_body dense_env 45 7 0 2 0 ''id'' ''lat'' ''lon'' ''g'' [] demo_store)"
  by (simp add: adaptive_geohash_nearby_search_def invalid_params_def)

lemma dense_final:
  "search_loop dense_env 0 2 ''id'' ''g'' [] init_state
   = \<lparr>precision = 49, previous_precision = 50, previous_result_size = 25,
      previous_where_clause = ''((g>=16 AND g<32))'', where_clause = ''((g>=16 AND g<32))'',
      stop = True, fall_back = False, loop_count = 1,
      queries = [CountQuery ''id'' ''((g>=16 AND g<32))'']\<rparr>"
proof -
  have b: "loop_body dense_env 0 2 ''id'' ''g'' [] init_state
     = \<lparr>precision = 49, previous_precision = 50, previous_result_size = 25,
      previous_where_clause = ''((g>=16 AND g<32))'', where_clause = ''((g>=16 AND g<32))'',
      stop = True, fall_back = False, loop_count = 1,
      queries = [CountQuery ''id'' ''((g>=16 AND g<32))'']\<rparr>"
    by (simp add: demo_eval dense_env_def)
  have "search_loop dense_env 0 2 ''id'' ''g'' [] init_state
        = loop_body dense_env 0 2 ''id'' ''g'' [] init_state"
    by (rule search_loop_one_iteration) (simp_all add: b, simp_all add: init_state_def)
  with b show ?thesis by simp
qed

lemma dense_returned:
  "returned (search_body dense_env 45 7 0 2 0 ''id'' ''lat'' ''lon'' ''g'' [] demo_store)
   = Some [(1, 45, 7), (2, 45, 7)]"
proof -
  have e: "geohash_encode_uint64 dense_env 45 7 = 0" by (simp add: dense_env_def)
  show ?thesis
    unfolding returned_search_body e dense_final
    by (simp add: store_after_search_body dense_env_def distance_def demo_row_col_def py_slice_def)
qed


text \<open>
  Claim C4. If the geohash expansion is empty in the first iteration (precision 50), so that
  the built predicate is the empty string, the call returns \<^verbatim>\<open>None\<close> and has executed
  no query at all: no count query and no fetch.
\<close>

theorem empty_expansion_falls_back:
  assumes "isinstance_int_float latitude" "isinstance_int_float longitude"
    and "geohash_expand_uint64 e (geohash_encode_uint64 e (num_of latitude) (num_of longitude)) 50 = []"
  shows "\<exists>out. adaptive_geohash_nearby_search e latitude longitude (PyInt lower_cut) (PyInt upper_cut)
                  select_cols cc lat_col lon_col g cw h = Returns out
               \<and> returned out = None \<and> executed out = []"
proof -
  let ?out = "search_body e (num_of latitude) (num_of longitude) lower_cut upper_cut
                select_cols cc lat_col lon_col g cw h"
  have "adaptive_geohash_nearby_search e latitude longitude (PyInt lower_cut) (PyInt upper_cut)
          select_cols cc lat_col lon_col g cw h = Returns ?out"
    using assms(1,2) by (simp add: adaptive_geohash_nearby_search_def invalid_params_def)
  moreover have "returned ?out = None"
    unfolding returned_search_body empty_clause_first_iteration [OF assms(3)] by simp
  moreover have "executed ?out = []"
    unfolding executed_search_body empty_clause_first_iteration [OF assms(3)]
    by (simp add: init_state_def)
  ultimately show ?thesis by blast
qed


theorem empty_expansion_falls_back_witness:
  "isinstance_int_float (PyFloat 45) \<and> isinstance_int_float (PyFloat 7)
   \<and> geohash_expand_uint64 empty_env (geohash_encode_uint64 empty_env (num_of (PyFloat 45)) (num_of (PyFloat 7))) 50 = []
   \<and> adaptive_geohash_nearby_search empty_env (PyFloat 45) (PyFloat 7) (PyInt 0) (PyInt 10)
        0 ''id'' ''lat'' ''lon'' ''g'' [] demo_store
      = Returns (search_body empty_env 45 7 0 10 0 ''id'' ''lat'' ''lon'' ''g'' [] demo_store)
   \<and> returned (search_body empty_env 45 7 0 10 0 ''id'' ''lat'' ''lon'' ''g'' [] demo_store) = None
   \<and> executed (search_body empty_env 45 7 0 10 0 ''id'' ''lat'' ''lon'' ''g'' [] demo_store) = []"
proof -
  have h1: "isinstance_int_float (PyFloat 45)" and h2: "isinstance_int_float (PyFloat 7)"
    by simp_all
  have h3: "geohash_expand_uint64 empty_env
              (geohash_encode_uint64 empty_env (num_of (PyFloat 45)) (num_of (PyFloat 7))) 50 = []"
    by (simp add: empty_env_def)
  have r: "adaptive_geohash_nearby_search empty_env (PyFloat 45) (PyFloat 7) (PyInt 0) (PyInt 10)
             0 ''id'' ''lat'' ''lon'' ''g'' [] demo_store
           = Returns (search_body empty_env 45 7 0 10 0 ''id'' ''lat'' ''lon'' ''g'' [] demo_store)"
    by (simp add: adaptive_geohash_nearby_search_def invalid_params_def)
  from empty_expansion_falls_back [OF h1 h2 h3, of 0 10 0 "''id''" "''lat''" "''lon''" "''g''" "[]" demo_store]
  show ?thesis using h1 h2 h3 r by auto
qed


text \<open>
  Claim C10. A call that returns has changed the caller's list in place: the list behind
  the reference \<open>select_cols\<close> is the old one with \<open>lat_col\<close> and \<open>lon_col\<close>
  appended, each only if it was absent; no other list of the store changes; and the list
  is strictly longer whenever one of the two columns was absent at call time.
\<close>

theorem select_cols_extended_in_place:
  assumes "adaptive_geohash_nearby_search e latitude longitude lower_cut upper_cut select_cols cc
             lat_col lon_col g cw h = Returns out"
  shows "store_after out select_cols
           = h select_cols @ (if lat_col \<in> set (h select_cols) then [] else [lat_col])
               @ (if lon_col \<in> set (h select_cols) \<or> lon_col = lat_col then [] else [lon_col])
         \<and> (\<forall>r. r \<noteq> select_cols \<longrightarrow> store_after out r = h r)
         \<and> (lat_col \<notin> set (h select_cols) \<or> lon_col \<notin> set (h select_cols)
              \<longrightarrow> length (h select_cols) < length (store_after out select_cols))"
proof -
  from Returns_cases [OF assms] obtain lo up where
    "out = search_body e (num_of latitude) (num_of longitude) lo up select_cols cc lat_col lon_col g cw h"
    by blast
  then show ?thesis by (auto simp: store_after_search_body)
qed


theorem select_cols_extended_in_place_witness:
  "adaptive_geohash_nearby_search dense_env (PyFloat 45) (PyFloat 7) (PyInt 0) (PyInt 2)
        0 ''id'' ''lat'' ''lon'' ''g'' [] demo_store
      = Returns (search_body dense_env 45 7 0 2 0 ''id'' ''lat'' ''lon'' ''g'' [] demo_store)
   \<and> demo_store 0 = [''name'']
   \<and> store_after (search_body dense_env 45 7 0 2 0 ''id'' ''lat'' ''lon'' ''g'' [] demo_store) 0
      = [''name'', ''lat'', ''lon'']
   \<and> length (demo_store 0) < length (store_after (search_body dense_env 45 7 0 2 0 ''id'' ''lat'' ''lon'' ''g'' [] demo_store) 0)"
proof -
  have r: "adaptive_geohash_nearby_search dense_env (PyFloat 45) (PyFloat 7) (PyInt 0) (PyInt 2)
             0 ''id'' ''lat'' ''lon'' ''g'' [] demo_store
           = Returns (search_body dense_env 45 7 0 2 0 ''id'' ''lat'' ''lon'' ''g'' [] demo_store)"
    by (simp add: adaptive_geohash_nearby_search_def invalid_params_def)
  from select_cols_extended_in_place [OF r] r show ?thesis
    by (simp add: demo_store_def)
qed



text \<open>
  Claim C7. In every call that does not fall back, the last query executed is the fetch,
  and the rows returned are the slice \<^verbatim>\<open>[lower_cut:upper_cut]\<close> of the fetched rows
  sorted stably by non-decreasing distance to the query point: the sorted sequence is a
  permutation of the fetched rows, is ordered by distance and keeps rows of equal distance
  in their fetched order. For cuts that are not negative the slice is the half-open
  interval from \<open>lower_cut\<close> to \<open>upper_cut\<close>. The rows returned are themselves ordered
  by non-decreasing distance.
\<close>

theorem returned_rows_sorted_slice:
  assumes "adaptive_geohash_nearby_search e latitude longitude (PyInt lower_cut) (PyInt upper_cut)
             select_cols cc lat_col lon_col g cw h = Returns out"
    and "returned out = Some rows"
  shows "\<exists>qs cols w ys.
           executed out = qs @ [FetchQuery cols w]
           \<and> sorted (map (row_distance e (num_of latitude) (num_of longitude) lat_col lon_col) ys)
           \<and> mset ys = mset (db_fetch e cols w)
           \<and> (\<forall>k. filter (\<lambda>r. row_distance e (num_of latitude) (num_of longitude) lat_col lon_col r = k) ys
                  = filter (\<lambda>r. row_distance e (num_of latitude) (num_of longitude) lat_col lon_col r = k)
                      (db_fetch e cols w))
           \<and> rows = py_slice ys lower_cut upper_cut
           \<and> (0 \<le> lower_cut \<and> 0 \<le> upper_cut
                \<longrightarrow> rows = take (nat (upper_cut - lower_cut)) (drop (nat lower_cut) ys))
           \<and> sorted (map (row_distance e (num_of latitude) (num_of longitude) lat_col lon_col) rows)"
proof -
  let ?key = "row_distance e (num_of latitude) (num_of longitude) lat_col lon_col"
  have out: "out = search_body e (num_of latitude) (num_of longitude) lower_cut upper_cut
                     select_cols cc lat_col lon_col g cw h"
    by (rule Returns_search_body [OF assms(1)])
  from fetched_rows [OF assms(2) [unfolded out]] obtain qs cols w where
    q: "executed out = qs @ [FetchQuery cols w]"
    and r: "rows = py_slice (sort_key ?key (db_fetch e cols w)) lower_cut upper_cut"
    unfolding out by blast
  let ?ys = "sort_key ?key (db_fetch e cols w)"
  have s: "sorted (map ?key ?ys)" by (rule sorted_sort_key)
  have m: "mset ?ys = mset (db_fetch e cols w)" by simp
  have st: "\<forall>k. filter (\<lambda>r. ?key r = k) ?ys = filter (\<lambda>r. ?key r = k) (db_fetch e cols w)"
    by (simp add: sort_key_stable)
  have n: "0 \<le> lower_cut \<and> 0 \<le> upper_cut
           \<longrightarrow> rows = take (nat (upper_cut - lower_cut)) (drop (nat lower_cut) ?ys)"
    by (simp add: r py_slice_nonneg)
  have sr: "sorted (map ?key rows)"
    unfolding r by (rule sorted_py_slice [OF s])
  from q s m st r n sr show ?thesis by blast
qed


theorem returned_rows_sorted_slice_witness:
  "adaptive_geohash_nearby_search dense_env (PyFloat 45) (PyFloat 7) (PyInt 0) (PyInt 2)
     0 ''id'' ''lat'' ''lon'' ''g'' [] demo_store
   = Returns (search_body dense_env 45 7 0 2 0 ''id'' ''lat'' ''lon'' ''g'' [] demo_store)
   \<and> returned (search_body dense_env 45 7 0 2 0 ''id'' ''lat'' ''lon'' ''g'' [] demo_store)
      = Some [(1, 45, 7), (2, 45, 7)]
   \<and> sorted (map (row_distance dense_env 45 7 ''lat'' ''lon'') [(1, 45, 7), (2, 45, 7)])"
  using returned_rows_sorted_slice [OF dense_returns dense_returned] dense_returns dense_returned
  by auto


text \<open>
  Claim C8, amended. In every call that does not fall back, with
  \<open>0 \<le> lower_cut \<le> upper_cut\<close>, the number of rows returned is at most
  \<open>upper_cut - lower_cut\<close>, and it equals \<open>upper_cut - lower_cut\<close> whenever the fetch
  with the accepted predicate yields at least \<open>upper_cut\<close> rows.
\<close>

theorem returned_length_bounded:
  assumes "adaptive_geohash_nearby_search e latitude longitude (PyInt lower_cut) (PyInt upper_cut)
             select_cols cc lat_col lon_col g cw h = Returns out"
    and "returned out = Some rows"
    and "0 \<le> lower_cut" "lower_cut \<le> upper_cut"
  shows "\<exists>qs cols w.
           executed out = qs @ [FetchQuery cols w]
           \<and> int (length rows) \<le> upper_cut - lower_cut
           \<and> (upper_cut \<le> int (length (db_fetch e cols w))
                \<longrightarrow> int (length rows) = upper_cut - lower_cut)"
proof -
  have out: "out = search_body e (num_of latitude) (num_of longitude) lower_cut upper_cut
                     select_cols cc lat_col lon_col g cw h"
    by (rule Returns_search_body [OF assms(1)])
  from fetched_rows [OF assms(2) [unfolded out]] obtain qs cols w where
    q: "executed out = qs @ [FetchQuery cols w]"
    and r: "rows = py_slice (sort_key (row_distance e (num_of latitude) (num_of longitude) lat_col lon_col)
                     (db_fetch e cols w)) lower_cut upper_cut"
    unfolding out by blast
  have a: "int (length rows) \<le> upper_cut - lower_cut"
    unfolding r by (rule py_slice_length_le [OF assms(3,4)])
  have b: "upper_cut \<le> int (length (db_fetch e cols w)) \<longrightarrow> int (length rows) = upper_cut - lower_cut"
  proof
    assume "upper_cut \<le> int (length (db_fetch e cols w))"
    then have "upper_cut \<le> int (length (sort_key
                 (row_distance e (num_of latitude) (num_of longitude) lat_col lon_col)
                 (db_fetch e cols w)))"
      by simp
    from py_slice_length_eq [OF assms(3,4) this] show "int (length rows) = upper_cut - lower_cut"
      unfolding r .
  qed
  from q a b show ?thesis by blast
qed


theorem returned_length_bounded_witness:
  "adaptive_geohash_nearby_search dense_env (PyFloat 45) (PyFloat 7) (PyInt 0) (PyInt 2)
     0 ''id'' ''lat'' ''lon'' ''g'' [] demo_store
   = Returns (search_body dense_env 45 7 0 2 0 ''id'' ''lat'' ''lon'' ''g'' [] demo_store)
   \<and> returned (search_body dense_env 45 7 0 2 0 ''id'' ''lat'' ''lon'' ''g'' [] demo_store)
      = Some [(1, 45, 7), (2, 45, 7)]
   \<and> (0::int) \<le> 0 \<and> (0::int) \<le> 2
   \<and> int (length [(1, 45, 7), (2, 45, 7) :: demo_row]) \<le> 2 - 0"
proof -
  have h3: "(0::int) \<le> 0" and h4: "(0::int) \<le> 2" by simp_all
  from returned_length_bounded [OF dense_returns dense_returned h3 h4] dense_returns dense_returned
  show ?thesis by auto
qed


section \<open>A count that decreases\<close>

lemma returned_search_body_row_distance:
  "returned (search_body e latitude longitude lower_cut upper_cut select_cols cc lat_col lon_col g cw h)
   = (if fall_back (search_loop e (geohash_encode_uint64 e latitude longitude) upper_cut cc g cw init_state)
      then None
      else Some (py_slice
              (sort_key (row_distance e latitude longitude lat_col lon_col)
                 (db_fetch e
                    (store_after (search_body e latitude longitude lower_cut upper_cut select_cols cc lat_col lon_col g cw h) select_cols)
                    (where_clause (search_loop e (geohash_encode_uint64 e latitude longitude) upper_cut cc g cw init_state))))
              lower_cut upper_cut))"
proof -
  have k: "(\<lambda>row. distance latitude longitude (row_col e row lat_col) (row_col e row lon_col))
           = row_distance e latitude longitude lat_col lon_col"
    by (simp add: row_distance_def fun_eq_iff)
  show ?thesis unfolding returned_search_body k ..
qed

lemma reachable_below_cap:
  "reachable e c u cc g cw s \<Longrightarrow>
   \<not> stop s \<and> \<not> fall_back s \<longrightarrow> previous_result_size s < max_result_cap u"
proof (induction rule: reachable.induct)
  case start
  show ?case by (simp add: init_state_def max_result_cap_def)
next
  case (iterate s)
  show ?case using loop_body_continues(3) [of e c u cc g cw s] by blast
qed

lemma regression_step:
  assumes "get_geohash_where_clause (geohash_expand_uint64 e) c (precision s) g = w" "w \<noteq> []"
    and "db_count e (loop_count s) cc (w @ cw) < previous_result_size s"
    and "previous_result_size s < max_result_cap u"
  shows "stop (loop_body e c u cc g cw s)"
    and "fall_back (loop_body e c u cc g cw s) \<longleftrightarrow> fall_back s \<or> \<not> Suc (loop_count s) < 20"
    and "where_clause (loop_body e c u cc g cw s) = previous_where_clause s"
    and "queries (loop_body e c u cc g cw s) = queries s @ [CountQuery cc (w @ cw)]"
  using assms by (auto simp: loop_body_def Let_def MAX_DB_HITS_def)

lemma sparse_clause_50:
  "get_geohash_where_clause (geohash_expand_uint64 sparse_env) c 50 ''g'' = ''((g>=16 AND g<32))''"
  by (simp add: get_geohash_where_clause_def add_sub_clause_def str_int_def digit_char_def
        sparse_env_def)

lemma sparse_clause_48:
  "get_geohash_where_clause (geohash_expand_uint64 sparse_env) c 48 ''g'' = ''((g>=64))''"
  by (simp add: get_geohash_where_clause_def add_sub_clause_def str_int_def digit_char_def
        sparse_env_def)

lemma sparse_first:
  "loop_body sparse_env 0 8 ''id'' ''g'' [] init_state = sparse_state"
  unfolding loop_body_def Let_def
  by (simp add: init_state_def sparse_clause_50)
     (simp add: sparse_env_def sparse_fetch_def sparse_state_def max_result_cap_def MAX_DB_HITS_def
        adjust_precision_def)

lemma sparse_reachable: "reachable sparse_env 0 8 ''id'' ''g'' [] sparse_state"
proof -
  have "reachable sparse_env 0 8 ''id'' ''g'' [] (loop_body sparse_env 0 8 ''id'' ''g'' [] init_state)"
    by (rule reachable.iterate [OF reachable.start]) (simp_all add: init_state_def)
  then show ?thesis by (simp add: sparse_first)
qed

lemma sparse_second:
  "loop_body sparse_env 0 8 ''id'' ''g'' [] sparse_state
   = \<lparr>precision = 44, previous_precision = 50, previous_result_size = 5,
      previous_where_clause = ''((g>=16 AND g<32))'', where_clause = ''((g>=16 AND g<32))'',
      stop = True, fall_back = False, loop_count = 2,
      queries = [CountQuery ''id'' ''((g>=16 AND g<32))'', CountQuery ''id'' ''((g>=64))'']\<rparr>"
  unfolding loop_body_def Let_def
  by (simp add: sparse_state_def sparse_clause_48)
     (simp add: sparse_env_def sparse_fetch_def max_result_cap_def MAX_DB_HITS_def
        adjust_precision_def)

lemma sparse_final:
  "search_loop sparse_env 0 8 ''id'' ''g'' [] init_state
   = \<lparr>precision = 44, previous_precision = 50, previous_result_size = 5,
      previous_where_clause = ''((g>=16 AND g<32))'', where_clause = ''((g>=16 AND g<32))'',
      stop = True, fall_back = False, loop_count = 2,
      queries = [CountQuery ''id'' ''((g>=16 AND g<32))'', CountQuery ''id'' ''((g>=64))'']\<rparr>"
proof -
  have "search_loop sparse_env 0 8 ''id'' ''g'' [] init_state
        = search_loop sparse_env 0 8 ''id'' ''g'' [] sparse_state"
    by (rule reachable_search_loop [OF sparse_reachable, symmetric])
  also have "\<dots> = loop_body sparse_env 0 8 ''id'' ''g'' [] sparse_state"
    by (rule search_loop_one_iteration) (simp_all add: sparse_second, simp_all add: sparse_state_def)
  finally show ?thesis by (simp add: sparse_second)
qed

lemma sparse_returns:
  "adaptive_geohash_nearby_search sparse_env (PyFloat 45) (PyFloat 7) (PyInt lo) (PyInt 8)
     0 ''id'' ''lat'' ''lon'' ''g'' [] demo_store
   = Returns (search_body sparse_env 45 7 lo 8 0 ''id'' ''lat'' ''lon'' ''g'' [] demo_store)"
  by (simp add: adaptive_geohash_nearby_search_def invalid_params_def)

lemma sparse_store:
  "store_after (search_body sparse_env 45 7 lo 8 0 ''id'' ''lat'' ''lon'' ''g'' [] demo_store) 0
   = [''name'', ''lat'', ''lon'']"
  by (simp add: store_after_search_body demo_store_def)

lemma sparse_encode: "geohash_encode_uint64 sparse_env x y = 0"
  by (simp add: sparse_env_def)

lemma replicate_20: "x # replicate 19 x = replicate 20 x"
proof -
  have "(20::nat) = Suc 19" by simp
  then show ?thesis by (simp only: replicate_Suc)
qed


text \<open>
  Claim C1 says that whenever a count query returns a count strictly smaller than the one
  recorded before it, the loop reverts to the previously recorded predicate, ends without
  falling back, and the rows returned are fetched with that previous predicate. The source
  says the same at the revert (``stop and use the previous where clause''), and does so
  when the smaller count is not the twentieth count query of the call. The test of the
  query budget, however, is a separate \<^verbatim>\<open>if\<close> that follows the revert and is not skipped
  by it: when the smaller count is the twentieth, the reverted predicate is discarded, the
  call returns \<^verbatim>\<open>None\<close> and nothing is fetched. The theorem states both outcomes of the
  code as it is written; the second one departs from the claim.
\<close>

theorem regression_outcome:
  assumes ret: "adaptive_geohash_nearby_search e latitude longitude (PyInt lower_cut) (PyInt upper_cut)
             select_cols cc lat_col lon_col g cw h = Returns out"
    and c: "c = geohash_encode_uint64 e (num_of latitude) (num_of longitude)"
    and r: "reachable e c upper_cut cc g cw s"
    and ns: "\<not> stop s" "\<not> fall_back s"
    and w: "w = get_geohash_where_clause (geohash_expand_uint64 e) c (precision s) g" "w \<noteq> []"
    and lt: "db_count e (loop_count s) cc (w @ cw) < previous_result_size s"
  shows "if Suc (loop_count s) < 20
         then returned out
                = Some (py_slice
                    (sort_key (row_distance e (num_of latitude) (num_of longitude) lat_col lon_col)
                       (db_fetch e (store_after out select_cols) (previous_where_clause s)))
                    lower_cut upper_cut)
              \<and> executed out
                = queries s @ [CountQuery cc (w @ cw),
                               FetchQuery (store_after out select_cols) (previous_where_clause s)]
         else returned out = None \<and> executed out = queries s @ [CountQuery cc (w @ cw)]"
proof -
  let ?s' = "loop_body e c upper_cut cc g cw s"
  have out: "out = search_body e (num_of latitude) (num_of longitude) lower_cut upper_cut
                     select_cols cc lat_col lon_col g cw h"
    by (rule Returns_search_body [OF ret])
  have cap: "previous_result_size s < max_result_cap upper_cut"
    using reachable_below_cap [OF r] ns by simp
  note step = regression_step [OF w(1) [symmetric] w(2) lt cap]
  have "search_loop e c upper_cut cc g cw init_state = search_loop e c upper_cut cc g cw s"
    by (rule reachable_search_loop [OF r, symmetric])
  also have "\<dots> = ?s'"
    using ns step(1) by (simp add: search_loop_one_iteration)
  finally have fin: "search_loop e (geohash_encode_uint64 e (num_of latitude) (num_of longitude))
                       upper_cut cc g cw init_state = ?s'"
    unfolding c .
  have r1: "returned out = (if fall_back ?s' then None
              else Some (py_slice
                    (sort_key (row_distance e (num_of latitude) (num_of longitude) lat_col lon_col)
                       (db_fetch e (store_after out select_cols) (where_clause ?s')))
                    lower_cut upper_cut))"
    unfolding out returned_search_body_row_distance fin ..
  have e1: "executed out = queries ?s' @ (if fall_back ?s' then []
              else [FetchQuery (store_after out select_cols) (where_clause ?s')])"
    unfolding out executed_search_body fin ..
  show ?thesis
    unfolding r1 e1 using step ns by simp
qed

text \<open>
  The departure at a concrete call: the table answers 10 to nineteen count queries and 9
  to the twentieth, with \<open>upper_cut = 10\<close>. The twentieth count is smaller than the
  recorded 10, and the call returns \<^verbatim>\<open>None\<close> after twenty count queries and no fetch.
\<close>

theorem regression_at_budget_falls_back:
  "reachable budget_env 0 10 ''id'' ''g'' [] (budget_state 19)
   \<and> \<not> stop (budget_state 19) \<and> \<not> fall_back (budget_state 19)
   \<and> get_geohash_where_clause (geohash_expand_uint64 budget_env) 0 (precision (budget_state 19)) ''g''
       = ''((g>=16 AND g<32))''
   \<and> db_count budget_env (loop_count (budget_state 19)) ''id'' (''((g>=16 AND g<32))'' @ [])
       < previous_result_size (budget_state 19)
   \<and> adaptive_geohash_nearby_search budget_env (PyFloat 45) (PyFloat 7) (PyInt 0) (PyInt 10)
        0 ''id'' ''lat'' ''lon'' ''g'' [] demo_store
      = Returns (search_body budget_env 45 7 0 10 0 ''id'' ''lat'' ''lon'' ''g'' [] demo_store)
   \<and> returned (search_body budget_env 45 7 0 10 0 ''id'' ''lat'' ''lon'' ''g'' [] demo_store) = None
   \<and> executed (search_body budget_env 45 7 0 10 0 ''id'' ''lat'' ''lon'' ''g'' [] demo_store)
      = replicate 20 (CountQuery ''id'' ''((g>=16 AND g<32))'')"
proof -
  have a: "reachable budget_env 0 10 ''id'' ''g'' [] (budget_state 19)"
    by (rule budget_reachable) simp
  have b: "\<not> stop (budget_state 19)" "\<not> fall_back (budget_state 19)"
    by (simp_all add: budget_state_def)
  have c: "0 = geohash_encode_uint64 budget_env (num_of (PyFloat 45)) (num_of (PyFloat 7))"
    by (simp add: budget_env_def)
  have w: "''((g>=16 AND g<32))''
           = get_geohash_where_clause (geohash_expand_uint64 budget_env) 0
               (precision (budget_state 19)) ''g''"
    by (simp add: budget_clause)
  have w2: "''((g>=16 AND g<32))'' \<noteq> []" by simp
  have d: "db_count budget_env (loop_count (budget_state 19)) ''id'' (''((g>=16 AND g<32))'' @ [])
           < previous_result_size (budget_state 19)"
    by (simp add: budget_env_def budget_state_def)
  have r: "adaptive_geohash_nearby_search budget_env (PyFloat 45) (PyFloat 7) (PyInt 0) (PyInt 10)
             0 ''id'' ''lat'' ''lon'' ''g'' [] demo_store
           = Returns (search_body budget_env 45 7 0 10 0 ''id'' ''lat'' ''lon'' ''g'' [] demo_store)"
    by (simp add: adaptive_geohash_nearby_search_def invalid_params_def)
  have q: "queries (budget_state 19) @ [CountQuery ''id'' ''((g>=16 AND g<32))'']
           = replicate 20 (CountQuery ''id'' ''((g>=16 AND g<32))'')"
    by (simp add: budget_state_def replicate_append_same replicate_20)
  have l: "\<not> Suc (loop_count (budget_state 19)) < 20"
    by (simp add: budget_state_def)
  from regression_outcome [OF r c a b w w2 d] l
  have "returned (search_body budget_env 45 7 0 10 0 ''id'' ''lat'' ''lon'' ''g'' [] demo_store) = None
        \<and> executed (search_body budget_env 45 7 0 10 0 ''id'' ''lat'' ''lon'' ''g'' [] demo_store)
          = queries (budget_state 19) @ [CountQuery ''id'' (''((g>=16 AND g<32))'' @ [])]"
    by (simp only: if_False)
  with a b w [symmetric] d r q show ?thesis by simp
qed

text \<open>
  Claim C8, as stated, promises \<open>upper_cut - lower_cut\<close> rows as soon as that many rows
  match. The slice starts at \<open>lower_cut\<close>: with five matching rows and the cuts 3 and 8,
  five rows are asked for, five rows match, and two rows are returned.
\<close>

theorem short_page_counterexample:
  "adaptive_geohash_nearby_search sparse_env (PyFloat 45) (PyFloat 7) (PyInt 3) (PyInt 8)
     0 ''id'' ''lat'' ''lon'' ''g'' [] demo_store
   = Returns (search_body sparse_env 45 7 3 8 0 ''id'' ''lat'' ''lon'' ''g'' [] demo_store)
   \<and> executed (search_body sparse_env 45 7 3 8 0 ''id'' ''lat'' ''lon'' ''g'' [] demo_store)
      = [CountQuery ''id'' ''((g>=16 AND g<32))'', CountQuery ''id'' ''((g>=64))'',
         FetchQuery [''name'', ''lat'', ''lon''] ''((g>=16 AND g<32))'']
   \<and> 8 - 3 \<le> int (length (db_fetch sparse_env [''name'', ''lat'', ''lon''] ''((g>=16 AND g<32))''))
   \<and> returned (search_body sparse_env 45 7 3 8 0 ''id'' ''lat'' ''lon'' ''g'' [] demo_store)
      = Some [(4, 45, 7), (5, 45, 7)]
   \<and> int (length [(4, 45, 7), (5, 45, 7) :: demo_row]) < 8 - 3"
proof -
  have x: "executed (search_body sparse_env 45 7 3 8 0 ''id'' ''lat'' ''lon'' ''g'' [] demo_store)
      = [CountQuery ''id'' ''((g>=16 AND g<32))'', CountQuery ''id'' ''((g>=64))'',
         FetchQuery [''name'', ''lat'', ''lon''] ''((g>=16 AND g<32))'']"
    unfolding executed_search_body sparse_encode sparse_final sparse_store by simp
  have f: "8 - 3 \<le> int (length (db_fetch sparse_env [''name'', ''lat'', ''lon''] ''((g>=16 AND g<32))''))"
    by (simp add: sparse_env_def sparse_fetch_def)
  have n: "returned (search_body sparse_env 45 7 3 8 0 ''id'' ''lat'' ''lon'' ''g'' [] demo_store)
      = Some [(4, 45, 7), (5, 45, 7)]"
    unfolding returned_search_body sparse_encode sparse_final sparse_store
    by (simp add: sparse_env_def sparse_fetch_def distance_def demo_row_col_def py_slice_def)
  from sparse_returns [of 3] x f n show ?thesis by simp
qed


end
